theory Spec2Isabelle
  imports Complex_Main
begin

section \<open>SleepFormer: windowing, batch reassembly and event extraction\<close>

text \<open>
  A shallow embedding of \<^verbatim>\<open>src/actinetcrf.py\<close>: the Windower
  (\<^verbatim>\<open>SleepDataset.preprocess_data\<close>), the decoding branch of
  \<^verbatim>\<open>ActiNetCRFModel.forward\<close>, the batch loop of \<^verbatim>\<open>predict_events\<close> and its
  transition scan.

  Conventions. A DataFrame is the list of its rows, a numpy array or tensor is the list
  of its entries, a Python dict is an association list in insertion order. Every
  exception the modelled code can raise is a value \<open>Inl e\<close>. The numeric casts of the
  source (\<^verbatim>\<open>astype(np.float32)\<close>, \<^verbatim>\<open>astype(float)\<close>, \<^verbatim>\<open>int(step)\<close>)
  act entry by entry and move no entry; they are left out, so feature values and
  timestamps are opaque and steps and labels are integers.
\<close>

subsection \<open>Errors and the debugger\<close>

datatype error =
    ValueError          \<comment> \<open>\<^verbatim>\<open>range()\<close> with step 0\<close>
  | UnboundLocalError   \<comment> \<open>a local variable read before any assignment\<close>
  | BdbQuit             \<comment> \<open>the debugger session was quit\<close>
  | IndexError          \<comment> \<open>index 0 of an empty sequence\<close>

text \<open>
  \<^verbatim>\<open>breakpoint()\<close> hands control to the debugger hook. What happens next is decided
  outside the program: the session is resumed (or the hook is disabled with
  \<^verbatim>\<open>PYTHONBREAKPOINT=0\<close>) and the call returns, or the session is quit and
  \<^verbatim>\<open>BdbQuit\<close> is raised.
\<close>

datatype debugger = Resume | Quit

definition breakpoint :: "debugger \<Rightarrow> error + unit" where
  "breakpoint dbg = (case dbg of Resume \<Rightarrow> Inr () | Quit \<Rightarrow> Inl BdbQuit)"

subsection \<open>Python slices and ranges\<close>

definition slice :: "'a list \<Rightarrow> nat \<Rightarrow> nat \<Rightarrow> 'a list" where
  \<comment> \<open>\<^verbatim>\<open>xs[i:j]\<close> for non-negative \<open>i\<close> and \<open>j\<close>: clipped at the end, never an error\<close>
  "slice xs i j = take (j - i) (drop i xs)"

definition py_range :: "nat \<Rightarrow> int \<Rightarrow> error + nat list" where
  \<comment> \<open>\<^verbatim>\<open>range(0, stop, k)\<close>\<close>
  "py_range stop k =
     (if k = 0 then Inl ValueError
      else if k < 0 then Inr []
      else Inr (map (\<lambda>j. j * nat k) [0..<(stop + nat k - 1) div nat k]))"

fun unique :: "'a list \<Rightarrow> 'a list" where
  \<comment> \<open>\<^verbatim>\<open>Series.unique()\<close>: the distinct values in order of first appearance\<close>
  "unique [] = []"
| "unique (x # xs) = x # unique (filter (\<lambda>y. y \<noteq> x) xs)"

subsection \<open>The Windower\<close>

text \<open>One row of the input table; \<open>'r\<close> is the raw timestamp field, \<open>'f\<close> a feature value.\<close>

record ('r, 'f) sample =
  df_series_id :: string
  df_step :: int
  df_timestamp :: 'r
  df_anglez :: 'f
  df_enmo :: 'f
  df_label :: int

text \<open>One entry of \<^verbatim>\<open>data_chunks\<close>; the key \<^verbatim>\<open>'label'\<close> is absent when \<^verbatim>\<open>is_test\<close>.\<close>

record ('t, 'f) chunk =
  series_id :: string
  step :: "int list"
  timestamp :: "'t list"
  data :: "('f \<times> 'f) list"
  label :: "int list option"

text \<open>
  \<^verbatim>\<open>pd.to_datetime\<close> converts the whole column or raises; \<open>p\<close> is the parser of one
  field, \<open>None\<close> where the field is malformed.
\<close>

fun to_datetime :: "('r \<Rightarrow> 't option) \<Rightarrow> 'r list \<Rightarrow> 't list option" where
  "to_datetime p [] = Some []"
| "to_datetime p (x # xs) =
     (case p x of
        None \<Rightarrow> None
      | Some t \<Rightarrow> (case to_datetime p xs of None \<Rightarrow> None | Some ts \<Rightarrow> Some (t # ts)))"

text \<open>
  Lines 38-48, the loop over \<^verbatim>\<open>range(0, len(data), sequence_length)\<close>. The variable
  \<^verbatim>\<open>timestamp\<close> is \<open>None\<close> while it is unbound; reading it then raises.
\<close>

fun chunk_loop ::
  "bool \<Rightarrow> nat \<Rightarrow> string \<Rightarrow> ('f \<times> 'f) list \<Rightarrow> 't list option \<Rightarrow> int list \<Rightarrow> int list \<Rightarrow>
   nat list \<Rightarrow> ('t, 'f) chunk list \<Rightarrow> error + ('t, 'f) chunk list" where
  "chunk_loop is_test sequence_length sid dat tsv stp lbl [] data_chunks = Inr data_chunks"
| "chunk_loop is_test sequence_length sid dat tsv stp lbl (i # idxs) data_chunks =
     (let chunk_data = slice dat i (i + sequence_length) in
      case tsv of
        None \<Rightarrow> Inl UnboundLocalError
      | Some ts \<Rightarrow>
          (let chunk_timestamp = slice ts i (i + sequence_length);
               chunk_step = slice stp i (i + sequence_length) in
           if length chunk_data = sequence_length then
             (if \<not> is_test then
                chunk_loop is_test sequence_length sid dat tsv stp lbl idxs
                  (data_chunks @
                   [\<lparr>series_id = sid, step = chunk_step, timestamp = chunk_timestamp,
                     data = chunk_data, label = Some (slice lbl i (i + sequence_length))\<rparr>])
              else
                chunk_loop is_test sequence_length sid dat tsv stp lbl idxs
                  (data_chunks @
                   [\<lparr>series_id = sid, step = chunk_step, timestamp = chunk_timestamp,
                     data = chunk_data, label = None\<rparr>]))
           else chunk_loop is_test sequence_length sid dat tsv stp lbl idxs data_chunks))"

text \<open>
  Lines 29-48, the body of the loop over the series. The state that survives from one
  series to the next is the variable \<^verbatim>\<open>timestamp\<close> and the list \<^verbatim>\<open>data_chunks\<close>.
  When the parse raises, the bare \<^verbatim>\<open>except\<close> swallows the exception and calls
  \<^verbatim>\<open>breakpoint()\<close>; if that returns, \<^verbatim>\<open>timestamp\<close> keeps whatever it held.
\<close>

definition preprocess_series ::
  "('r \<Rightarrow> 't option) \<Rightarrow> debugger \<Rightarrow> bool \<Rightarrow> int \<Rightarrow> ('r, 'f) sample list \<Rightarrow> string \<Rightarrow>
   't list option \<times> ('t, 'f) chunk list \<Rightarrow> error + ('t list option \<times> ('t, 'f) chunk list)" where
  "preprocess_series p dbg is_test sequence_length df sid st =
     (let series_data = filter (\<lambda>r. df_series_id r = sid) df;
          dat = map (\<lambda>r. (df_anglez r, df_enmo r)) series_data in
      case (case to_datetime p (map df_timestamp series_data) of
              Some ts \<Rightarrow> Inr (Some ts)
            | None \<Rightarrow> (case breakpoint dbg of Inl e \<Rightarrow> Inl e | Inr _ \<Rightarrow> Inr (fst st))) of
        Inl e \<Rightarrow> Inl e
      | Inr tsv \<Rightarrow>
          (let stp = map df_step series_data in
           case py_range (length dat) sequence_length of
             Inl e \<Rightarrow> Inl e
           | Inr idxs \<Rightarrow>
               (case chunk_loop is_test (nat sequence_length) sid dat tsv stp
                       (map df_label series_data) idxs (snd st) of
                  Inl e \<Rightarrow> Inl e
                | Inr data_chunks \<Rightarrow> Inr (tsv, data_chunks))))"

fun series_loop ::
  "('r \<Rightarrow> 't option) \<Rightarrow> debugger \<Rightarrow> bool \<Rightarrow> int \<Rightarrow> ('r, 'f) sample list \<Rightarrow> string list \<Rightarrow>
   't list option \<times> ('t, 'f) chunk list \<Rightarrow> error + ('t, 'f) chunk list" where
  "series_loop p dbg is_test sequence_length df [] st = Inr (snd st)"
| "series_loop p dbg is_test sequence_length df (sid # sids) st =
     (case preprocess_series p dbg is_test sequence_length df sid st of
        Inl e \<Rightarrow> Inl e
      | Inr st' \<Rightarrow> series_loop p dbg is_test sequence_length df sids st')"

definition preprocess_data ::
  "('r \<Rightarrow> 't option) \<Rightarrow> debugger \<Rightarrow> bool \<Rightarrow> int \<Rightarrow> ('r, 'f) sample list \<Rightarrow>
   error + ('t, 'f) chunk list" where
  "preprocess_data p dbg is_test sequence_length df =
     series_loop p dbg is_test sequence_length df (unique (map df_series_id df)) (None, [])"

subsection \<open>The batch loop of \<^verbatim>\<open>predict_events\<close>\<close>

text \<open>
  \<^verbatim>\<open>torch.max(logits, 2)\<close> returns, for every step of every window, the index of the
  first maximal class score. The class dimension of a tensor the call accepts is not
  empty, so a row of class scores is a first score and the rest.
\<close>

fun argmax_from :: "'a::linorder \<Rightarrow> int \<Rightarrow> int \<Rightarrow> 'a list \<Rightarrow> int" where
  "argmax_from best best_i i [] = best_i"
| "argmax_from best best_i i (x # xs) =
     (if best < x then argmax_from x i (i + 1) xs else argmax_from best best_i (i + 1) xs)"

definition argmax_row :: "'a::linorder \<times> 'a list \<Rightarrow> int" where
  "argmax_row r = argmax_from (fst r) 0 1 (snd r)"

definition torch_max_indices :: "('a::linorder \<times> 'a list) list list \<Rightarrow> int list list" where
  "torch_max_indices logits = map (map argmax_row) logits"

text \<open>
  Lines 170-182. A batch is the list of the dataset entries the loader collated, so
  \<^verbatim>\<open>batch['data']\<close> is \<open>map data batch\<close> and \<^verbatim>\<open>batch['step'][0]\<close> the steps of its first
  entry. \<open>model\<close> is the argument of \<^verbatim>\<open>predict_events\<close>: line 179 takes its result for a
  score tensor indexed by window, step and class. (\<^verbatim>\<open>ActiNetCRFModel.forward\<close>, modelled
  further down, returns decoded labels and not scores when it is called without tags.) The
  three accumulators are \<^verbatim>\<open>predictions\<close>, \<^verbatim>\<open>series_ids\<close> and \<^verbatim>\<open>steps\<close>.
\<close>

fun batch_loop ::
  "(('f \<times> 'f) list list \<Rightarrow> ('a::linorder \<times> 'a list) list list) \<Rightarrow> ('t, 'f) chunk list list \<Rightarrow>
   int list \<times> string list \<times> int list \<Rightarrow> error + (int list \<times> string list \<times> int list)" where
  "batch_loop model [] acc = Inr acc"
| "batch_loop model (batch # rest) (predictions, series_ids, stps) =
     (let input_data = map data batch;
          logits = model input_data;
          predicted = torch_max_indices logits in
      case predicted of
        [] \<Rightarrow> Inl IndexError
      | predicted0 # _ \<Rightarrow>
          (case map series_id batch of
             [] \<Rightarrow> Inl IndexError
           | series_id0 # _ \<Rightarrow>
               (case map step batch of
                  [] \<Rightarrow> Inl IndexError
                | step0 # _ \<Rightarrow>
                    batch_loop model rest
                      (predictions @ predicted0,
                       series_ids @ replicate (length predicted0) series_id0,
                       stps @ step0))))"

subsection \<open>The transition scan\<close>

text \<open>One value of \<^verbatim>\<open>pred_dict\<close>, and one entry of \<^verbatim>\<open>prediction_rows\<close>.\<close>

record series_dict =
  preds :: "int list"
  steps :: "int list"

record prediction_row =
  row_id :: nat
  row_series_id :: "string option"
  row_step :: int
  event :: string
  score :: real

text \<open>
  Lines 193-204, the loop over one series. \<open>curr_series\<close> is the variable of that name:
  line 190 sets it to \<^verbatim>\<open>None\<close> and no line assigns it again.
\<close>

fun scan_series ::
  "string option \<Rightarrow> int \<Rightarrow> (int \<times> int) list \<Rightarrow> prediction_row list \<Rightarrow> prediction_row list" where
  "scan_series curr_series curr_state [] prediction_rows = prediction_rows"
| "scan_series curr_series curr_state ((pred, stp) # rest) prediction_rows =
     (if pred \<noteq> curr_state then
        scan_series curr_series pred rest
          (prediction_rows @
           [\<lparr>row_id = length prediction_rows, row_series_id = curr_series, row_step = stp,
             event = (if pred = 1 then ''wakeup'' else ''onset''), score = 1\<rparr>])
      else scan_series curr_series curr_state rest prediction_rows)"

text \<open>Lines 191-204, the loop over \<^verbatim>\<open>pred_dict.items()\<close>.\<close>

fun scan_dict ::
  "string option \<Rightarrow> (string \<times> series_dict) list \<Rightarrow> prediction_row list \<Rightarrow>
   error + prediction_row list" where
  "scan_dict curr_series [] prediction_rows = Inr prediction_rows"
| "scan_dict curr_series ((sid, sd) # rest) prediction_rows =
     (case preds sd of
        [] \<Rightarrow> Inl IndexError
      | curr_state # _ \<Rightarrow>
          scan_dict curr_series rest
            (scan_series curr_series curr_state (zip (tl (preds sd)) (tl (steps sd)))
               prediction_rows))"

definition transition_scan :: "(string \<times> series_dict) list \<Rightarrow> error + prediction_row list" where
  "transition_scan pred_dict = scan_dict None pred_dict []"

text \<open>
  \<^verbatim>\<open>predict_events\<close>. The helpers \<^verbatim>\<open>pred_to_dict\<close>, \<^verbatim>\<open>remove_outliers\<close> and
  \<^verbatim>\<open>get_local_best\<close> are called but defined nowhere in the source; they are parameters.
\<close>

definition predict_events ::
  "(('f \<times> 'f) list list \<Rightarrow> ('a::linorder \<times> 'a list) list list) \<Rightarrow>
   (string list \<Rightarrow> int list \<Rightarrow> int list \<Rightarrow> (string \<times> series_dict) list) \<Rightarrow>
   ((string \<times> series_dict) list \<Rightarrow> (string \<times> series_dict) list) \<Rightarrow>
   ((string \<times> series_dict) list \<Rightarrow> (string \<times> series_dict) list) \<Rightarrow>
   ('t, 'f) chunk list list \<Rightarrow> error + prediction_row list" where
  "predict_events model pred_to_dict remove_outliers get_local_best test_loader =
     (case batch_loop model test_loader ([], [], []) of
        Inl e \<Rightarrow> Inl e
      | Inr (predictions, series_ids, stps) \<Rightarrow>
          transition_scan
            (get_local_best (remove_outliers (pred_to_dict series_ids stps predictions))))"


subsection \<open>The structured decoding layer\<close>

text \<open>
  \<^verbatim>\<open>torchcrf\<close>'s \<^verbatim>\<open>CRF(num_tags)\<close> holds start, end and transition scores,
  \<open>transitions ! i ! j\<close> for the move from tag \<open>i\<close> to tag \<open>j\<close>. Unless it is built with
  \<^verbatim>\<open>batch_first=True\<close>, which line 84 does not do, it reads the first axis of its input
  as the sequence and the second as the batch. The library is not among the sources;
  the definitions follow its \<^verbatim>\<open>_viterbi_decode\<close>, on exact scores.
\<close>

record 'a crf =
  start_transitions :: "'a list"
  end_transitions :: "'a list"
  transitions :: "'a list list"

text \<open>The index of the first maximal entry, and the maximum, of a tensor row.\<close>

definition first_max :: "'a::linorder list \<Rightarrow> nat" where
  "first_max xs = (case xs of [] \<Rightarrow> 0 | x # r \<Rightarrow> nat (argmax_from x 0 1 r))"

definition max_list :: "'a::linorder list \<Rightarrow> 'a" where
  "max_list xs = fold max (tl xs) (hd xs)"

text \<open>
  One step of \<^verbatim>\<open>_viterbi_decode\<close>: for every target tag the best score over the source
  tags, and the source tag that gives it.
\<close>

definition viterbi_step ::
  "'a::linordered_ab_group_add crf \<Rightarrow> 'a list \<Rightarrow> 'a list \<Rightarrow> 'a list \<times> nat list" where
  "viterbi_step crf sc e =
     (let next_score = transpose (map2 (\<lambda>s row. map2 (\<lambda>t x. s + t + x) row e) sc (transitions crf))
      in (map max_list next_score, map first_max next_score))"

fun viterbi_scan ::
  "'a::linordered_ab_group_add crf \<Rightarrow> 'a list \<Rightarrow> nat list list \<Rightarrow> 'a list list \<Rightarrow>
   'a list \<times> nat list list" where
  "viterbi_scan crf sc history [] = (sc, history)"
| "viterbi_scan crf sc history (e # es) =
     (case viterbi_step crf sc e of
        (next_score, indices) \<Rightarrow> viterbi_scan crf next_score (history @ [indices]) es)"

text \<open>The walk back through the history, from the best last tag.\<close>

fun backtrack :: "nat list list \<Rightarrow> nat list \<Rightarrow> nat list" where
  "backtrack [] best_tags = best_tags"
| "backtrack (hist # rest) best_tags = backtrack rest (best_tags @ [hist ! last best_tags])"

definition viterbi :: "'a::linordered_ab_group_add crf \<Rightarrow> 'a list list \<Rightarrow> nat list" where
  "viterbi crf chain =
     (case viterbi_scan crf (map2 (+) (start_transitions crf) (hd chain)) [] (tl chain) of
        (sc, history) \<Rightarrow>
          rev (backtrack (rev history) [first_max (map2 (+) sc (end_transitions crf))]))"

text \<open>
  \<^verbatim>\<open>CRF.decode\<close> with the default mask: one chain per index of the second axis, each
  decoded along the first axis. A last dimension that is not \<open>num_tags\<close> is refused.
\<close>

definition crf_decode ::
  "'a::linordered_ab_group_add crf \<Rightarrow> 'a list list list \<Rightarrow> error + nat list list" where
  "crf_decode crf emissions =
     (if emissions = [] then Inl IndexError
      else if \<not> list_all (list_all (\<lambda>scores. length scores = length (start_transitions crf))) emissions
        then Inl ValueError
      else Inr (map (viterbi crf) (transpose emissions)))"

text \<open>
  Lines 86-96. \<open>layers\<close> stands for lines 87-91, the convolutions, the LSTM built with
  \<^verbatim>\<open>batch_first=True\<close> and the linear layer: it maps a batch of windows to scores indexed
  by window, step and class, and line 95 hands these to \<^verbatim>\<open>decode\<close> as they are. The
  log-likelihood of line 93 is a floating-point log-sum-exp inside \<^verbatim>\<open>torchcrf\<close> and
  stays a parameter, \<open>crf_llh\<close>.
\<close>

datatype 'l forward_output = Loss 'l | Decoded "nat list list"

definition forward ::
  "(('f \<times> 'f) list list \<Rightarrow> 'a list list list) \<Rightarrow>
   ('a crf \<Rightarrow> 'a list list list \<Rightarrow> nat list list \<Rightarrow> 'l::uminus) \<Rightarrow>
   'a::linordered_ab_group_add crf \<Rightarrow> ('f \<times> 'f) list list \<Rightarrow> nat list list option \<Rightarrow>
   error + 'l forward_output" where
  "forward layers crf_llh crf x tags =
     (let logits = layers x in
      case tags of
        Some t \<Rightarrow> Inr (Loss (- crf_llh crf logits t))
      | None \<Rightarrow> (case crf_decode crf logits of Inl e \<Rightarrow> Inl e | Inr d \<Rightarrow> Inr (Decoded d)))"

subsection \<open>Descriptions the theorems compare the code with\<close>

text \<open>
  The \<open>k\<close>-th full window of a series, read off its rows: all four vectors are
  projections of the same rows \<open>[k * w, k * w + w)\<close>.
\<close>

definition window_at ::
  "('r \<Rightarrow> 't option) \<Rightarrow> bool \<Rightarrow> nat \<Rightarrow> string \<Rightarrow> ('r, 'f) sample list \<Rightarrow> nat \<Rightarrow> ('t, 'f) chunk" where
  "window_at p is_test w sid series_data k =
     (let rows = slice series_data (k * w) (k * w + w) in
      \<lparr>series_id = sid, step = map df_step rows,
       timestamp = map (\<lambda>r. the (p (df_timestamp r))) rows,
       data = map (\<lambda>r. (df_anglez r, df_enmo r)) rows,
       label = (if is_test then None else Some (map df_label rows))\<rparr>)"

definition series_windows ::
  "('r \<Rightarrow> 't option) \<Rightarrow> bool \<Rightarrow> nat \<Rightarrow> ('r, 'f) sample list \<Rightarrow> string \<Rightarrow> ('t, 'f) chunk list" where
  "series_windows p is_test w df sid =
     (let series_data = filter (\<lambda>r. df_series_id r = sid) df in
      map (window_at p is_test w sid series_data) [0..<length series_data div w])"

text \<open>What line 180-182 read of a batch: three fields of its first entry.\<close>

definition first_window ::
  "('t, 'f) chunk list \<Rightarrow> (string \<times> int list \<times> ('f \<times> 'f) list) option" where
  "first_window batch =
     (case batch of [] \<Rightarrow> None | c # _ \<Rightarrow> Some (series_id c, step c, data c))"

text \<open>
  The entries of an accumulator that belong to one series, in the order they were
  appended: the accumulator \<open>xs\<close> is read side by side with \<^verbatim>\<open>series_ids\<close>.
\<close>

definition series_part :: "string \<Rightarrow> string list \<Rightarrow> 'a list \<Rightarrow> 'a list" where
  "series_part sid series_ids xs = map snd (filter (\<lambda>e. fst e = sid) (zip series_ids xs))"

text \<open>The labels line 179 computes for one window when the model scores it with \<open>net\<close>.\<close>

definition decode ::
  "(('f \<times> 'f) list \<Rightarrow> ('a::linorder \<times> 'a list) list) \<Rightarrow> ('t, 'f) chunk \<Rightarrow> int list" where
  "decode net c = map argmax_row (net (data c))"

text \<open>
  The score \<^verbatim>\<open>torchcrf\<close> gives one tag sequence over one chain of emission rows: start,
  emissions, transitions between neighbours, end.
\<close>

fun path_steps :: "'a::linordered_ab_group_add crf \<Rightarrow> nat \<Rightarrow> 'a list list \<Rightarrow> nat list \<Rightarrow> 'a" where
  "path_steps crf prev (e # es) (t # ts) = transitions crf ! prev ! t + e ! t + path_steps crf t es ts"
| "path_steps crf prev _ _ = end_transitions crf ! prev"

definition path_score :: "'a::linordered_ab_group_add crf \<Rightarrow> 'a list list \<Rightarrow> nat list \<Rightarrow> 'a" where
  "path_score crf chain tags =
     start_transitions crf ! hd tags + hd chain ! hd tags + path_steps crf (hd tags) (tl chain) (tl tags)"

subsection \<open>Concrete inputs\<close>

definition example_parser :: "string \<Rightarrow> int option" where
  "example_parser =
     map_of [(''t0'', 100), (''t1'', 105), (''t2'', 110), (''t3'', 115), (''t4'', 120)]"

definition row :: "string \<Rightarrow> int \<Rightarrow> string \<Rightarrow> int \<Rightarrow> int \<Rightarrow> int \<Rightarrow> (string, int) sample" where
  "row sid st raw a e l =
     \<lparr>df_series_id = sid, df_step = st, df_timestamp = raw, df_anglez = a, df_enmo = e,
      df_label = l\<rparr>"

text \<open>One series of five samples.\<close>

definition example_df :: "(string, int) sample list" where
  "example_df =
     [row ''a'' 0 ''t0'' 1 2 0, row ''a'' 1 ''t1'' 4 3 0, row ''a'' 2 ''t2'' 5 6 1,
      row ''a'' 3 ''t3'' 8 7 1, row ''a'' 4 ''t4'' 9 10 0]"

text \<open>Two series of two samples; the last timestamp of the second does not parse.\<close>

definition malformed_df :: "(string, int) sample list" where
  "malformed_df =
     [row ''a'' 0 ''t0'' 1 2 0, row ''a'' 1 ''t1'' 3 4 0,
      row ''b'' 0 ''t2'' 5 6 1, row ''b'' 1 ''??'' 7 8 1]"

text \<open>A model that scores class 0 with \<^verbatim>\<open>anglez\<close> and class 1 with \<^verbatim>\<open>enmo\<close>, window by window.\<close>

definition example_net :: "(int \<times> int) list \<Rightarrow> (int \<times> int list) list" where
  "example_net d = map (\<lambda>(a, e). (a, [e])) d"

definition example_model :: "(int \<times> int) list list \<Rightarrow> (int \<times> int list) list list" where
  "example_model b = map example_net b"

text \<open>The two windows of length 2 of \<open>example_df\<close> in test mode.\<close>

definition example_windows :: "(int, int) chunk list" where
  "example_windows =
     [\<lparr>series_id = ''a'', step = [0, 1], timestamp = [100, 105], data = [(1, 2), (4, 3)],
       label = None\<rparr>,
      \<lparr>series_id = ''a'', step = [2, 3], timestamp = [110, 115], data = [(5, 6), (8, 7)],
       label = None\<rparr>]"

text \<open>A grouping helper for one series, used where a closed term needs one.\<close>

definition one_series_dict :: "string list \<Rightarrow> int list \<Rightarrow> int list \<Rightarrow> (string \<times> series_dict) list" where
  "one_series_dict series_ids stps predictions =
     (case series_ids of [] \<Rightarrow> [] | sid # _ \<Rightarrow> [(sid, \<lparr>preds = predictions, steps = stps\<rparr>)])"

text \<open>
  A decoding layer that dislikes a change of tag, emission scores that are the two
  features, and a window of two steps.
\<close>

definition example_crf :: "int crf" where
  "example_crf = \<lparr>start_transitions = [0, 0], end_transitions = [0, 0],
                   transitions = [[0, - 10], [- 10, 0]]\<rparr>"

definition example_layers :: "(int \<times> int) list list \<Rightarrow> int list list list" where
  "example_layers x = map (map (\<lambda>(a, e). [a, e])) x"

definition crf_window :: "(int \<times> int) list" where
  "crf_window = [(5, 0), (0, 1)]"

text \<open>A model whose scores for a window depend on the batch around it, here on its size.\<close>

definition coupled_model :: "(int \<times> int) list list \<Rightarrow> (int \<times> int list) list list" where
  "coupled_model b = map (map (\<lambda>(a, e). (a * int (length b), [e]))) b"

section \<open>Properties\<close>

subsection \<open>Slices, ranges and \<open>unique\<close>\<close>

lemma slice_map: "slice (map f xs) i j = map f (slice xs i j)"
  by (simp add: slice_def take_map drop_map)

lemma full_slice_iff:
  "0 < w \<Longrightarrow> length (slice xs i (i + w)) = w \<longleftrightarrow> i + w \<le> length xs"
  by (auto simp: slice_def min_def)

lemma full_rows:
  assumes "k < length sd div w"
  shows "length (slice sd (k * w) (k * w + w)) = w"
proof -
  have "Suc k * w \<le> length sd div w * w"
    using assms by (intro mult_le_mono1) simp
  also have "\<dots> \<le> length sd" by simp
  finally show ?thesis by (simp add: slice_def)
qed

lemma concat_slices:
  "n * w \<le> length xs \<Longrightarrow>
   concat (map (\<lambda>k. slice xs (k * w) (k * w + w)) [0..<n]) = take (n * w) xs"
proof (induction n)
  case 0
  show ?case by simp
next
  case (Suc n)
  then have "concat (map (\<lambda>k. slice xs (k * w) (k * w + w)) [0..<n]) = take (n * w) xs"
    by simp
  moreover have "take (n * w) xs @ take w (drop (n * w) xs) = take (n * w + w) xs"
    by (simp add: take_add)
  ultimately show ?case
    by (simp add: slice_def add.commute)
qed

lemma filter_less_upt: "m \<le> k \<Longrightarrow> filter (\<lambda>x. x < m) [0..<k] = [0..<m]"
proof (induction k)
  case 0
  then show ?case by simp
next
  case (Suc k)
  show ?case
  proof (cases "m = Suc k")
    case True
    then show ?thesis by simp
  next
    case False
    with Suc show ?thesis by simp
  qed
qed

text \<open>Of the start indices \<open>0, w, 2w, ...\<close> below \<open>n\<close>, the first \<open>n div w\<close> start a full window.\<close>

lemma full_windows_of_range:
  assumes "0 < w"
  shows "filter (\<lambda>i. i + w \<le> n) (map (\<lambda>j. j * w) [0..<(n + w - 1) div w])
           = map (\<lambda>j. j * w) [0..<n div w]"
proof -
  have le: "n div w \<le> (n + w - 1) div w"
    using assms by (intro div_le_mono) simp
  have iff: "j * w + w \<le> n \<longleftrightarrow> j < n div w" for j
    using assms
    by (metis Suc_leI less_eq_div_iff_mult_less_eq mult_Suc not_less_eq_eq linorder_not_le
        add.commute)
  have "filter (\<lambda>i. i + w \<le> n) (map (\<lambda>j. j * w) [0..<(n + w - 1) div w])
          = map (\<lambda>j. j * w) (filter (\<lambda>j. j < n div w) [0..<(n + w - 1) div w])"
    by (simp add: filter_map o_def iff)
  also have "filter (\<lambda>j. j < n div w) [0..<(n + w - 1) div w] = [0..<n div w]"
    using le by (rule filter_less_upt)
  finally show ?thesis .
qed

lemma set_unique: "set (unique xs) = set xs"
proof (induction xs rule: unique.induct)
  case 1
  show ?case by simp
next
  case (2 x xs)
  then show ?case by auto
qed

lemma distinct_unique: "distinct (unique xs)"
proof (induction xs rule: unique.induct)
  case 1
  show ?case by simp
next
  case (2 x xs)
  then show ?case by (simp add: set_unique)
qed

lemma filter_concat_by_key:
  assumes tagged: "\<And>x c. c \<in> set (f x) \<Longrightarrow> key c = x"
  shows "distinct xs \<Longrightarrow>
         filter (\<lambda>c. key c = k) (concat (map f xs)) = (if k \<in> set xs then f k else [])"
proof (induction xs)
  case Nil
  show ?case by simp
next
  case (Cons x xs)
  have keep: "filter (\<lambda>c. key c = y) (f y) = f y" for y
    using tagged by (simp add: filter_id_conv)
  have drop_other: "x \<noteq> k \<Longrightarrow> filter (\<lambda>c. key c = k) (f x) = []"
    using tagged by (auto simp: filter_empty_conv)
  show ?case
  proof (cases "x = k")
    case True
    with Cons show ?thesis by (simp add: keep)
  next
    case False
    with Cons show ?thesis by (simp add: drop_other)
  qed
qed

lemma length_concat_const:
  "\<forall>x\<in>set xs. length (f x) = w \<Longrightarrow> length (concat (map f xs)) = length xs * w"
  by (induction xs) simp_all

subsection \<open>The Windower on well-formed timestamps\<close>

lemma to_datetime_total:
  "\<forall>x\<in>set xs. p x \<noteq> None \<Longrightarrow> to_datetime p xs = Some (map (\<lambda>x. the (p x)) xs)"
  by (induction xs) auto

lemma to_datetime_None: "to_datetime p xs = None \<longleftrightarrow> (\<exists>x\<in>set xs. p x = None)"
  by (induction xs) (auto split: option.splits)

text \<open>With \<^verbatim>\<open>timestamp\<close> bound, the loop appends one chunk per start index of a full window.\<close>

lemma chunk_loop_bound:
  "chunk_loop is_test w sid dat (Some ts) stp lbl idxs acc =
     Inr (acc @ map (\<lambda>i. \<lparr>series_id = sid, step = slice stp i (i + w),
                         timestamp = slice ts i (i + w), data = slice dat i (i + w),
                         label = (if is_test then None else Some (slice lbl i (i + w)))\<rparr>)
                 (filter (\<lambda>i. length (slice dat i (i + w)) = w) idxs))"
proof (cases is_test)
  case True
  then show ?thesis by (induction idxs arbitrary: acc) (simp_all add: Let_def)
next
  case False
  then show ?thesis by (induction idxs arbitrary: acc) (simp_all add: Let_def)
qed

lemma preprocess_series_parsed:
  assumes w: "0 < sequence_length"
    and ok: "\<forall>r\<in>set df. p (df_timestamp r) \<noteq> None"
  shows "preprocess_series p dbg is_test sequence_length df sid st =
           Inr (Some (map (\<lambda>r. the (p (df_timestamp r))) (filter (\<lambda>r. df_series_id r = sid) df)),
                snd st @ series_windows p is_test (nat sequence_length) df sid)"
proof -
  define sd where "sd = filter (\<lambda>r. df_series_id r = sid) df"
  define wn where "wn = nat sequence_length"
  let ?dat = "map (\<lambda>r. (df_anglez r, df_enmo r)) sd"
  let ?ts = "map (\<lambda>r. the (p (df_timestamp r))) sd"
  have wn: "0 < wn" using w by (simp add: wn_def)
  have parse: "to_datetime p (map df_timestamp sd) = Some ?ts"
    using ok to_datetime_total [of "map df_timestamp sd" p] by (simp add: sd_def o_def)
  have rng: "py_range (length ?dat) sequence_length =
               Inr (map (\<lambda>j. j * wn) [0..<(length ?dat + wn - 1) div wn])"
    using w by (simp add: py_range_def wn_def)
  have full: "filter (\<lambda>i. length (slice ?dat i (i + wn)) = wn)
                (map (\<lambda>j. j * wn) [0..<(length ?dat + wn - 1) div wn])
              = map (\<lambda>j. j * wn) [0..<length sd div wn]"
    using full_windows_of_range [OF wn, of "length sd"] by (simp add: full_slice_iff [OF wn])
  have loop: "chunk_loop is_test wn sid ?dat (Some ?ts) (map df_step sd) (map df_label sd)
                (map (\<lambda>j. j * wn) [0..<(length ?dat + wn - 1) div wn]) (snd st)
              = Inr (snd st @ map (window_at p is_test wn sid sd) [0..<length sd div wn])"
    unfolding chunk_loop_bound full
    by (simp add: window_at_def slice_map o_def Let_def)
  show ?thesis
    unfolding preprocess_series_def Let_def sd_def [symmetric] wn_def [symmetric]
      series_windows_def parse rng
    using loop by simp
qed

lemma series_loop_parsed:
  assumes w: "0 < sequence_length"
    and ok: "\<forall>r\<in>set df. p (df_timestamp r) \<noteq> None"
  shows "series_loop p dbg is_test sequence_length df sids st =
           Inr (snd st @ concat (map (series_windows p is_test (nat sequence_length) df) sids))"
  by (induction sids arbitrary: st) (simp_all add: preprocess_series_parsed [OF w ok])

text \<open>
  The whole Windower: it returns, and its result is the full windows of every series,
  series by series in order of first appearance.
\<close>

lemma preprocess_data_parsed:
  assumes "0 < sequence_length" and "\<forall>r\<in>set df. p (df_timestamp r) \<noteq> None"
  shows "preprocess_data p dbg is_test sequence_length df =
           Inr (concat (map (series_windows p is_test (nat sequence_length) df)
                            (unique (map df_series_id df))))"
  by (simp add: preprocess_data_def series_loop_parsed [OF assms])

lemma series_windows_id:
  "c \<in> set (series_windows p is_test w df sid) \<Longrightarrow> series_id c = sid"
  by (auto simp: series_windows_def window_at_def Let_def)

lemma series_windows_absent:
  assumes "sid \<notin> df_series_id ` set df"
  shows "series_windows p is_test w df sid = []"
proof -
  from assms have "filter (\<lambda>r. df_series_id r = sid) df = []"
    by (auto simp: filter_empty_conv)
  then show ?thesis by (simp add: series_windows_def)
qed

lemma chunks_of_series:
  assumes "0 < sequence_length" and "\<forall>r\<in>set df. p (df_timestamp r) \<noteq> None"
  shows "\<exists>chunks. preprocess_data p dbg is_test sequence_length df = Inr chunks \<and>
           (\<forall>sid. filter (\<lambda>c. series_id c = sid) chunks =
                    series_windows p is_test (nat sequence_length) df sid)"
proof -
  let ?f = "series_windows p is_test (nat sequence_length) df"
  let ?ids = "unique (map df_series_id df)"
  have "filter (\<lambda>c. series_id c = sid) (concat (map ?f ?ids)) = ?f sid" for sid
  proof -
    have "filter (\<lambda>c. series_id c = sid) (concat (map ?f ?ids))
            = (if sid \<in> set ?ids then ?f sid else [])"
      by (rule filter_concat_by_key) (auto simp: series_windows_id distinct_unique)
    then show ?thesis
      by (simp add: set_unique series_windows_absent)
  qed
  then show ?thesis
    by (simp add: preprocess_data_parsed [OF assms])
qed


text \<open>
  Claim C2. For a positive window length and a table whose timestamps all parse, the
  Windower returns, and for every series of length \<open>L\<close> the chunks it holds for that
  series are exactly \<open>L div W\<close> many, each of \<open>W\<close> samples; the \<open>k\<close>-th is the samples
  \<open>[k * W, k * W + W)\<close> of the series, so that in order they tile the first
  \<open>(L div W) * W\<close> samples, each once, and the remainder is dropped.
\<close>

theorem windower_floor_windows:
  fixes df :: "('r, 'f) sample list" and p :: "'r \<Rightarrow> 't option"
    and sequence_length :: int and sid :: string
  defines "w \<equiv> nat sequence_length"
    and "sd \<equiv> filter (\<lambda>r. df_series_id r = sid) df"
  assumes "0 < sequence_length" and "\<forall>r\<in>set df. p (df_timestamp r) \<noteq> None"
  shows "\<exists>chunks :: ('t, 'f) chunk list.
           preprocess_data p dbg is_test sequence_length df = Inr chunks \<and>
           (let ws = filter (\<lambda>c. series_id c = sid) chunks in
              length ws = length sd div w \<and>
              (\<forall>c\<in>set ws. length (data c) = w \<and> length (step c) = w) \<and>
              map data ws =
                map (\<lambda>k. slice (map (\<lambda>r. (df_anglez r, df_enmo r)) sd) (k * w) (k * w + w))
                    [0..<length sd div w] \<and>
              map step ws =
                map (\<lambda>k. slice (map df_step sd) (k * w) (k * w + w)) [0..<length sd div w] \<and>
              concat (map data ws) =
                take (length sd div w * w) (map (\<lambda>r. (df_anglez r, df_enmo r)) sd) \<and>
              concat (map step ws) = take (length sd div w * w) (map df_step sd))"
proof -
  obtain chunks :: "('t, 'f) chunk list"
    where run: "preprocess_data p dbg is_test sequence_length df = Inr chunks"
      and mine: "filter (\<lambda>c. series_id c = sid) chunks = series_windows p is_test w df sid"
    using chunks_of_series [OF assms(3,4), of dbg is_test] unfolding w_def by blast
  let ?ws = "map (window_at p is_test w sid sd) [0..<length sd div w]"
  have ws: "series_windows p is_test w df sid = ?ws"
    by (simp add: series_windows_def sd_def Let_def)
  have len: "length ?ws = length sd div w" by simp
  have each: "\<forall>c\<in>set ?ws. length (data c) = w \<and> length (step c) = w"
    by (auto simp: window_at_def Let_def full_rows)
  have dat: "map data ?ws =
               map (\<lambda>k. slice (map (\<lambda>r. (df_anglez r, df_enmo r)) sd) (k * w) (k * w + w))
                   [0..<length sd div w]"
    by (simp add: window_at_def Let_def slice_map)
  have stp: "map step ?ws =
               map (\<lambda>k. slice (map df_step sd) (k * w) (k * w + w)) [0..<length sd div w]"
    by (simp add: window_at_def Let_def slice_map)
  have cdat: "concat (map data ?ws) =
                take (length sd div w * w) (map (\<lambda>r. (df_anglez r, df_enmo r)) sd)"
    unfolding dat by (rule concat_slices) simp
  have cstp: "concat (map step ?ws) = take (length sd div w * w) (map df_step sd)"
    unfolding stp by (rule concat_slices) simp
  show ?thesis
    unfolding Let_def
    using run mine ws len each dat stp cdat cstp by (intro exI [of _ chunks]) simp
qed

text \<open>Five samples and window length 2: two windows, covering steps 0 to 3; step 4 is dropped.\<close>

theorem windower_floor_windows_witness:
  "0 < (2::int) \<and> list_all (\<lambda>r. example_parser (df_timestamp r) \<noteq> None) example_df \<and>
   (\<exists>chunks. preprocess_data example_parser Resume False 2 example_df = Inr chunks \<and>
      length (filter (\<lambda>c. series_id c = ''a'') chunks) = 2 \<and>
      concat (map step (filter (\<lambda>c. series_id c = ''a'') chunks)) = [0, 1, 2, 3])"
proof -
  have ok: "\<forall>r\<in>set example_df. example_parser (df_timestamp r) \<noteq> None"
    by (simp add: example_df_def row_def example_parser_def)
  have five: "filter (\<lambda>r. df_series_id r = ''a'') example_df = example_df"
    by (simp add: example_df_def row_def)
  have steps_a: "map df_step example_df = [0, 1, 2, 3, 4]"
    by (simp add: example_df_def row_def)
  have len: "length example_df = 5"
    by (simp add: example_df_def)
  from windower_floor_windows [of 2 example_df example_parser Resume False "''a''", OF _ ok]
  show ?thesis
    using ok by (auto simp: Let_def five steps_a len list_all_iff)
qed



subsection \<open>The Windower on a malformed timestamp\<close>

text \<open>
  Claim C3. The claim asks for a fatal input-validation error whenever a timestamp does
  not parse. The code swallows the parse error and calls \<^verbatim>\<open>breakpoint()\<close>; when that
  returns, line 40 slices the array the previous series left in \<^verbatim>\<open>timestamp\<close>. On
  \<open>malformed_df\<close> the run ends without an error, and the chunk of series \<^verbatim>\<open>b\<close> carries the
  timestamps 100 and 105 of series \<^verbatim>\<open>a\<close>.
\<close>

theorem malformed_timestamp_proceeds:
  "preprocess_data example_parser Resume False 2 malformed_df =
     Inr [\<lparr>series_id = ''a'', step = [0, 1], timestamp = [100, 105], data = [(1, 2), (3, 4)],
           label = Some [0, 0]\<rparr>,
          \<lparr>series_id = ''b'', step = [0, 1], timestamp = [100, 105], data = [(5, 6), (7, 8)],
           label = Some [1, 1]\<rparr>]"
  by (simp add: preprocess_data_def preprocess_series_def malformed_df_def row_def
      example_parser_def py_range_def breakpoint_def slice_def Let_def)

text \<open>
  The other two outcomes of the same defect: the debugger session is quit, or the
  malformed series comes first and \<^verbatim>\<open>timestamp\<close> was never bound.
\<close>

lemma malformed_timestamp_quit:
  "preprocess_data example_parser Quit False 2 malformed_df = Inl BdbQuit"
  by (simp add: preprocess_data_def preprocess_series_def malformed_df_def row_def
      example_parser_def py_range_def breakpoint_def slice_def Let_def)

lemma malformed_timestamp_first_series:
  "preprocess_data example_parser Resume False 2 (rev malformed_df) = Inl UnboundLocalError"
  by (simp add: preprocess_data_def preprocess_series_def malformed_df_def row_def
      example_parser_def py_range_def breakpoint_def slice_def Let_def)

subsection \<open>The batch loop reads one window per batch\<close>

text \<open>
  One iteration on two batches with the same first entry: both fail on an empty batch,
  or both append the same three vectors.
\<close>

lemma batch_step_first:
  assumes ind: "\<forall>b. model b = map net b"
    and same: "first_window b1 = first_window b2"
  shows "batch_loop model (b1 # rest1) acc = Inl IndexError \<and> batch_loop model (b2 # rest2) acc = Inl IndexError
       \<or> (\<exists>acc'. batch_loop model (b1 # rest1) acc = batch_loop model rest1 acc' \<and>
                  batch_loop model (b2 # rest2) acc = batch_loop model rest2 acc')"
proof (cases b1)
  case Nil
  with same have "b2 = []" by (simp add: first_window_def split: list.splits)
  with Nil show ?thesis
    by (cases acc) (simp add: ind torch_max_indices_def)
next
  case (Cons c1 r1)
  with same obtain c2 r2 where b2: "b2 = c2 # r2"
    and eq: "series_id c1 = series_id c2" "step c1 = step c2" "data c1 = data c2"
    by (cases b2) (auto simp: first_window_def)
  obtain ps ss ts where acc: "acc = (ps, ss, ts)" by (cases acc)
  have "batch_loop model (b1 # rest1) acc =
          batch_loop model rest1 (ps @ map argmax_row (net (data c2)),
            ss @ replicate (length (net (data c2))) (series_id c2), ts @ step c2)"
    and "batch_loop model (b2 # rest2) acc =
          batch_loop model rest2 (ps @ map argmax_row (net (data c2)),
            ss @ replicate (length (net (data c2))) (series_id c2), ts @ step c2)"
    by (simp_all add: Cons b2 eq acc ind torch_max_indices_def)
  then show ?thesis by blast
qed

text \<open>
  Claim C9, as the code has it. Line 176 hands the whole batch to the model, so what the
  loop reads of a batch is its first entry and whatever the model makes of the rest.
  For a model that scores each window of a batch on its own: two loaders whose batches
  agree, batch by batch, on the series id, steps and features of their first entry give
  the same result of \<^verbatim>\<open>predict_events\<close>, the same event table or the same error,
  whatever the other entries of each batch are and whatever the three absent helpers
  compute.
\<close>

theorem predict_events_reads_first_window:
  assumes ind: "\<forall>b. model b = map net b"
    and same: "map first_window loader1 = map first_window loader2"
  shows "predict_events model pred_to_dict remove_outliers get_local_best loader1 =
         predict_events model pred_to_dict remove_outliers get_local_best loader2"
proof -
  have "batch_loop model loader1 acc = batch_loop model loader2 acc" for acc
    using same
  proof (induction loader1 arbitrary: loader2 acc)
    case Nil
    then show ?case by simp
  next
    case (Cons b1 rest1)
    then obtain b2 rest2 where l2: "loader2 = b2 # rest2"
      and fw: "first_window b1 = first_window b2"
      and rest: "map first_window rest1 = map first_window rest2"
      by (cases loader2) auto
    from batch_step_first [OF ind fw, of rest1 acc rest2] Cons.IH [OF rest]
    show ?case unfolding l2 by auto
  qed
  then show ?thesis by (simp add: predict_events_def)
qed


text \<open>A batch of two windows against the batch of its first window alone.\<close>

theorem predict_events_reads_first_window_witness:
  "map first_window [example_windows] = map first_window [[hd example_windows]] \<and>
   [example_windows] \<noteq> [[hd example_windows]] \<and>
   predict_events example_model one_series_dict (\<lambda>d. d) (\<lambda>d. d) [example_windows] =
   predict_events example_model one_series_dict (\<lambda>d. d) (\<lambda>d. d) [[hd example_windows]]"
proof -
  have ind: "\<forall>b. example_model b = map example_net b"
    by (simp add: example_model_def)
  have same: "map first_window [example_windows] = map first_window [[hd example_windows]]"
    by (simp add: first_window_def example_windows_def)
  have differ: "[example_windows] \<noteq> [[hd example_windows]]"
    by (simp add: example_windows_def)
  note equal = predict_events_reads_first_window [OF ind same, of one_series_dict "\<lambda>d. d" "\<lambda>d. d"]
  show ?thesis
    by (intro conjI same differ equal)
qed

text \<open>
  Claim C9, as the spec states it, fails. With a model that couples the windows of a
  batch, a batch of two windows and the batch of its first window alone agree on the
  first entry and give different event tables.
\<close>

theorem coupled_model_reads_whole_batch:
  "map first_window [example_windows] = map first_window [[hd example_windows]] \<and>
   predict_events coupled_model one_series_dict (\<lambda>d. d) (\<lambda>d. d) [example_windows] = Inr [] \<and>
   predict_events coupled_model one_series_dict (\<lambda>d. d) (\<lambda>d. d) [[hd example_windows]] =
     Inr [\<lparr>row_id = 0, row_series_id = None, row_step = 1, event = ''onset'', score = 1\<rparr>] \<and>
   predict_events coupled_model one_series_dict (\<lambda>d. d) (\<lambda>d. d) [example_windows] \<noteq>
   predict_events coupled_model one_series_dict (\<lambda>d. d) (\<lambda>d. d) [[hd example_windows]]"
  by (simp add: first_window_def example_windows_def predict_events_def coupled_model_def
      torch_max_indices_def argmax_row_def one_series_dict_def transition_scan_def)

subsection \<open>Reassembly\<close>

lemma batch_loop_singletons:
  assumes ind: "\<forall>b. model b = map net b"
  shows "batch_loop model (map (\<lambda>c. [c]) windows) (ps, ss, ts) =
           Inr (ps @ concat (map (decode net) windows),
                ss @ concat (map (\<lambda>c. replicate (length (net (data c))) (series_id c)) windows),
                ts @ concat (map step windows))"
  by (induction windows arbitrary: ps ss ts) (simp_all add: ind torch_max_indices_def decode_def)

lemma series_part_append:
  "length ss = length xs \<Longrightarrow>
   series_part sid (ss @ ss') (xs @ xs') = series_part sid ss xs @ series_part sid ss' xs'"
  by (simp add: series_part_def)

lemma series_part_replicate:
  "length xs = n \<Longrightarrow> series_part sid (replicate n s) xs = (if s = sid then xs else [])"
proof -
  assume n: "length xs = n"
  have z: "zip (replicate n s) xs = map (\<lambda>x. (s, x)) xs"
    unfolding n [symmetric] by (induction xs) simp_all
  show ?thesis
    by (simp add: series_part_def z filter_map o_def)
qed

lemma series_part_concat:
  assumes "\<forall>c\<in>set windows. length (f c) = n c"
  shows "series_part sid (concat (map (\<lambda>c. replicate (n c) (series_id c)) windows))
                         (concat (map f windows))
         = concat (map f (filter (\<lambda>c. series_id c = sid) windows))"
  using assms
proof (induction windows)
  case Nil
  show ?case by (simp add: series_part_def)
next
  case (Cons c cs)
  then have len: "length (f c) = n c" and rest: "\<forall>c\<in>set cs. length (f c) = n c"
    by simp_all
  have "series_part sid (replicate (n c) (series_id c) @ concat (map (\<lambda>c. replicate (n c) (series_id c)) cs))
          (f c @ concat (map f cs))
        = series_part sid (replicate (n c) (series_id c)) (f c)
          @ series_part sid (concat (map (\<lambda>c. replicate (n c) (series_id c)) cs)) (concat (map f cs))"
    by (rule series_part_append) (simp add: len)
  then show ?case
    using Cons.IH [OF rest] by (simp add: series_part_replicate [OF len])
qed

lemma batch_loop_heads:
  assumes ind: "\<forall>b. model b = map net b"
  shows "\<forall>b\<in>set loader. b \<noteq> [] \<Longrightarrow>
         batch_loop model loader (ps, ss, ts) =
           Inr (ps @ concat (map (decode net) (map hd loader)),
                ss @ concat (map (\<lambda>c. replicate (length (net (data c))) (series_id c)) (map hd loader)),
                ts @ concat (map step (map hd loader)))"
proof (induction loader arbitrary: ps ss ts)
  case Nil
  show ?case by simp
next
  case (Cons b rest)
  then obtain c r where b: "b = c # r" by (cases b) auto
  have rest: "\<forall>b\<in>set rest. b \<noteq> []" using Cons.prems by simp
  have "batch_loop model (b # rest) (ps, ss, ts) =
          batch_loop model rest
            (ps @ decode net c, ss @ replicate (length (net (data c))) (series_id c), ts @ step c)"
    by (simp add: b ind torch_max_indices_def decode_def)
  also have "\<dots> =
          Inr ((ps @ decode net c) @ concat (map (decode net) (map hd rest)),
               (ss @ replicate (length (net (data c))) (series_id c)) @
                 concat (map (\<lambda>c. replicate (length (net (data c))) (series_id c)) (map hd rest)),
               (ts @ step c) @ concat (map step (map hd rest)))"
    using rest by (rule Cons.IH)
  finally show ?case
    by (simp add: b)
qed

lemma series_windows_length:
  "length (series_windows p is_test w df sid) = length (filter (\<lambda>r. df_series_id r = sid) df) div w"
  by (simp add: series_windows_def Let_def)

lemma series_windows_shape:
  assumes "c \<in> set (series_windows p is_test w df sid)"
  shows "length (data c) = w \<and> length (step c) = w"
  using assms by (auto simp: series_windows_def window_at_def Let_def full_rows)

lemma series_windows_steps:
  "concat (map step (series_windows p is_test w df sid)) =
     take (length (filter (\<lambda>r. df_series_id r = sid) df) div w * w)
          (map df_step (filter (\<lambda>r. df_series_id r = sid) df))"
proof -
  let ?sd = "filter (\<lambda>r. df_series_id r = sid) df"
  have "map step (series_windows p is_test w df sid) =
          map (\<lambda>k. slice (map df_step ?sd) (k * w) (k * w + w)) [0..<length ?sd div w]"
    by (simp add: series_windows_def window_at_def Let_def slice_map)
  then show ?thesis
    by (simp add: concat_slices)
qed


lemma windower_then_singleton_batches:
  fixes df :: "('r, 'f) sample list" and p :: "'r \<Rightarrow> 't option"
    and net :: "('f \<times> 'f) list \<Rightarrow> ('a::linorder \<times> 'a list) list"
  assumes ind: "\<forall>b. model b = map net b"
    and rows: "\<forall>d. length (net d) = length d"
    and w: "0 < sequence_length"
    and ok: "\<forall>r\<in>set df. p (df_timestamp r) \<noteq> None"
  shows "\<exists>(chunks :: ('t, 'f) chunk list) predictions series_ids stps.
           preprocess_data p dbg is_test sequence_length df = Inr chunks \<and>
           batch_loop model (map (\<lambda>c. [c]) chunks) ([], [], []) =
             Inr (predictions, series_ids, stps) \<and>
           (\<forall>sid.
              length (filter (\<lambda>c. series_id c = sid) chunks) =
                length (filter (\<lambda>r. df_series_id r = sid) df) div nat sequence_length \<and>
              series_part sid series_ids predictions =
                concat (map (decode net) (filter (\<lambda>c. series_id c = sid) chunks)) \<and>
              length (series_part sid series_ids predictions) =
                length (filter (\<lambda>r. df_series_id r = sid) df) div nat sequence_length
                  * nat sequence_length \<and>
              series_part sid series_ids stps =
                concat (map step (filter (\<lambda>c. series_id c = sid) chunks)) \<and>
              series_part sid series_ids stps =
                take (length (filter (\<lambda>r. df_series_id r = sid) df) div nat sequence_length
                        * nat sequence_length)
                     (map df_step (filter (\<lambda>r. df_series_id r = sid) df)) \<and>
              (sorted_wrt (<) (map df_step (filter (\<lambda>r. df_series_id r = sid) df)) \<longrightarrow>
                 sorted_wrt (<) (series_part sid series_ids stps)))"
proof -
  let ?w = "nat sequence_length"
  let ?sw = "series_windows p is_test ?w df"
  obtain chunks :: "('t, 'f) chunk list"
    where run: "preprocess_data p dbg is_test sequence_length df = Inr chunks"
      and mine: "\<And>sid. filter (\<lambda>c. series_id c = sid) chunks = ?sw sid"
    using chunks_of_series [OF w ok, of dbg is_test] by blast
  have shape: "length (data c) = ?w \<and> length (step c) = ?w" if "c \<in> set chunks" for c
  proof -
    from that have "c \<in> set (filter (\<lambda>c'. series_id c' = series_id c) chunks)" by simp
    then have "c \<in> set (?sw (series_id c))" by (simp only: mine)
    then show ?thesis by (rule series_windows_shape)
  qed
  let ?ids = "concat (map (\<lambda>c. replicate (length (net (data c))) (series_id c)) chunks)"
  let ?preds = "concat (map (decode net) chunks)"
  let ?stps = "concat (map step chunks)"
  have loop: "batch_loop model (map (\<lambda>c. [c]) chunks) ([], [], []) = Inr (?preds, ?ids, ?stps)"
    using batch_loop_singletons [OF ind, of chunks "[]" "[]" "[]"] by simp
  have part_p: "series_part sid ?ids ?preds = concat (map (decode net) (?sw sid))" for sid
  proof -
    have "series_part sid ?ids ?preds =
            concat (map (decode net) (filter (\<lambda>c. series_id c = sid) chunks))"
      by (rule series_part_concat) (simp add: decode_def)
    then show ?thesis by (simp only: mine)
  qed
  have part_s: "series_part sid ?ids ?stps = concat (map step (?sw sid))" for sid
  proof -
    have "series_part sid ?ids ?stps = concat (map step (filter (\<lambda>c. series_id c = sid) chunks))"
      by (rule series_part_concat) (simp add: shape rows)
    then show ?thesis by (simp only: mine)
  qed
  have len_p: "length (concat (map (decode net) (?sw sid))) =
                 length (filter (\<lambda>r. df_series_id r = sid) df) div ?w * ?w" for sid
  proof -
    have "\<forall>c\<in>set (?sw sid). length (decode net c) = ?w"
      using series_windows_shape [of _ p is_test ?w df sid] rows by (simp add: decode_def)
    then have "length (concat (map (decode net) (?sw sid))) = length (?sw sid) * ?w"
      by (rule length_concat_const)
    then show ?thesis by (simp add: series_windows_length)
  qed
  have srt: "sorted_wrt (<) (map df_step (filter (\<lambda>r. df_series_id r = sid) df)) \<longrightarrow>
               sorted_wrt (<) (concat (map step (?sw sid)))" for sid
    unfolding series_windows_steps by (simp add: sorted_wrt_take)
  show ?thesis
    apply (rule exI [of _ chunks], rule exI [of _ ?preds], rule exI [of _ ?ids],
        rule exI [of _ ?stps])
    using run loop srt
    by (simp add: mine part_p part_s len_p series_windows_length series_windows_steps)
qed


text \<open>
  Claim C7, as the code has it, for a model that scores each window on its own with one
  score row per sample. First, for any loader: the loop returns the concatenation of
  the decoded labels, the series ids and the steps of the first window of each batch,
  and of no other window. Second, for the loader that delivers the Windower's chunks
  in their order, one per batch: the loop returns, and for every series of \<open>n\<close> windows
  of length \<open>W\<close> the entries of that series are \<open>n * W\<close> labels and \<open>n * W\<close> steps, the
  concatenation of the series' windows with nothing reordered and nothing removed; the
  steps are the first \<open>n * W\<close> steps of the series, ascending when the series is.
\<close>

theorem reassembly_keeps_first_windows:
  fixes df :: "('r, 'f) sample list" and p :: "'r \<Rightarrow> 't option"
    and net :: "('f \<times> 'f) list \<Rightarrow> ('a::linorder \<times> 'a list) list"
  assumes ind: "\<forall>b. model b = map net b"
    and rows: "\<forall>d. length (net d) = length d"
  shows "(\<forall>loader :: ('t, 'f) chunk list list.
            (\<forall>b\<in>set loader. b \<noteq> []) \<longrightarrow>
            batch_loop model loader ([], [], []) =
              Inr (concat (map (decode net) (map hd loader)),
                   concat (map (\<lambda>c. replicate (length (data c)) (series_id c)) (map hd loader)),
                   concat (map step (map hd loader)))) \<and>
         (0 < sequence_length \<and> (\<forall>r\<in>set df. p (df_timestamp r) \<noteq> None) \<longrightarrow>
            (\<exists>(chunks :: ('t, 'f) chunk list) predictions series_ids stps.
               preprocess_data p dbg is_test sequence_length df = Inr chunks \<and>
               batch_loop model (map (\<lambda>c. [c]) chunks) ([], [], []) =
                 Inr (predictions, series_ids, stps) \<and>
               (\<forall>sid.
                  length (filter (\<lambda>c. series_id c = sid) chunks) =
                    length (filter (\<lambda>r. df_series_id r = sid) df) div nat sequence_length \<and>
                  series_part sid series_ids predictions =
                    concat (map (decode net) (filter (\<lambda>c. series_id c = sid) chunks)) \<and>
                  length (series_part sid series_ids predictions) =
                    length (filter (\<lambda>r. df_series_id r = sid) df) div nat sequence_length
                      * nat sequence_length \<and>
                  series_part sid series_ids stps =
                    concat (map step (filter (\<lambda>c. series_id c = sid) chunks)) \<and>
                  series_part sid series_ids stps =
                    take (length (filter (\<lambda>r. df_series_id r = sid) df) div nat sequence_length
                            * nat sequence_length)
                         (map df_step (filter (\<lambda>r. df_series_id r = sid) df)) \<and>
                  (sorted_wrt (<) (map df_step (filter (\<lambda>r. df_series_id r = sid) df)) \<longrightarrow>
                     sorted_wrt (<) (series_part sid series_ids stps)))))"
proof (intro conjI allI impI)
  fix loader :: "('t, 'f) chunk list list"
  assume "\<forall>b\<in>set loader. b \<noteq> []"
  then have "batch_loop model loader ([], [], []) =
          Inr ([] @ concat (map (decode net) (map hd loader)),
               [] @ concat (map (\<lambda>c. replicate (length (net (data c))) (series_id c)) (map hd loader)),
               [] @ concat (map step (map hd loader)))"
    by (rule batch_loop_heads [OF ind])
  then show "batch_loop model loader ([], [], []) =
              Inr (concat (map (decode net) (map hd loader)),
                   concat (map (\<lambda>c. replicate (length (data c)) (series_id c)) (map hd loader)),
                   concat (map step (map hd loader)))"
    by (simp add: rows)
next
  assume "0 < sequence_length \<and> (\<forall>r\<in>set df. p (df_timestamp r) \<noteq> None)"
  then have w: "0 < sequence_length" and ok: "\<forall>r\<in>set df. p (df_timestamp r) \<noteq> None"
    by simp_all
  show "\<exists>(chunks :: ('t, 'f) chunk list) predictions series_ids stps.
               preprocess_data p dbg is_test sequence_length df = Inr chunks \<and>
               batch_loop model (map (\<lambda>c. [c]) chunks) ([], [], []) =
                 Inr (predictions, series_ids, stps) \<and>
               (\<forall>sid.
                  length (filter (\<lambda>c. series_id c = sid) chunks) =
                    length (filter (\<lambda>r. df_series_id r = sid) df) div nat sequence_length \<and>
                  series_part sid series_ids predictions =
                    concat (map (decode net) (filter (\<lambda>c. series_id c = sid) chunks)) \<and>
                  length (series_part sid series_ids predictions) =
                    length (filter (\<lambda>r. df_series_id r = sid) df) div nat sequence_length
                      * nat sequence_length \<and>
                  series_part sid series_ids stps =
                    concat (map step (filter (\<lambda>c. series_id c = sid) chunks)) \<and>
                  series_part sid series_ids stps =
                    take (length (filter (\<lambda>r. df_series_id r = sid) df) div nat sequence_length
                            * nat sequence_length)
                         (map df_step (filter (\<lambda>r. df_series_id r = sid) df)) \<and>
                  (sorted_wrt (<) (map df_step (filter (\<lambda>r. df_series_id r = sid) df)) \<longrightarrow>
                     sorted_wrt (<) (series_part sid series_ids stps)))"
    by (rule windower_then_singleton_batches [OF ind rows w ok])
qed

text \<open>
  The two windows of the example in one batch: the first alone comes back. The chunks of
  the five-sample series, one per batch: four labels and the steps 0 to 3, ascending.
\<close>

theorem reassembly_keeps_first_windows_witness:
  "batch_loop example_model [example_windows] ([], [], []) = Inr ([1, 0], [''a'', ''a''], [0, 1]) \<and>
   (\<exists>chunks predictions series_ids stps.
      preprocess_data example_parser Resume True 2 example_df = Inr chunks \<and>
      batch_loop example_model (map (\<lambda>c. [c]) chunks) ([], [], []) =
        Inr (predictions, series_ids, stps) \<and>
      length (filter (\<lambda>c. series_id c = ''a'') chunks) = 2 \<and>
      length (series_part ''a'' series_ids predictions) = 2 * 2 \<and>
      series_part ''a'' series_ids stps = [0, 1, 2, 3] \<and>
      sorted_wrt (<) (series_part ''a'' series_ids stps))"
proof -
  have ind: "\<forall>b. example_model b = map example_net b"
    by (simp add: example_model_def)
  have rows: "\<forall>d. length (example_net d) = length d"
    by (simp add: example_net_def)
  have ok: "\<forall>r\<in>set example_df. example_parser (df_timestamp r) \<noteq> None"
    by (simp add: example_df_def row_def example_parser_def)
  have nonempty: "\<forall>b\<in>set [example_windows]. b \<noteq> []"
    by (simp add: example_windows_def)
  have all_a: "filter (\<lambda>r. df_series_id r = ''a'') example_df = example_df"
    by (simp add: example_df_def row_def)
  have stp: "map df_step example_df = [0, 1, 2, 3, 4]"
    by (simp add: example_df_def row_def)
  have len: "length example_df = 5"
    by (simp add: example_df_def)
  note both = reassembly_keeps_first_windows [OF ind rows, of 2 example_df example_parser Resume True]
  from both have "batch_loop example_model [example_windows] ([], [], []) =
      Inr (concat (map (decode example_net) (map hd [example_windows])),
           concat (map (\<lambda>c. replicate (length (data c)) (series_id c)) (map hd [example_windows])),
           concat (map step (map hd [example_windows])))"
    using nonempty by blast
  then have first: "batch_loop example_model [example_windows] ([], [], [])
                      = Inr ([1, 0], [''a'', ''a''], [0, 1])"
    by (simp add: example_windows_def decode_def example_net_def argmax_row_def)
  have pos: "0 < (2::int)" by simp
  note pipeline = both [THEN conjunct2, THEN mp, OF conjI [OF pos ok]]
  from pipeline obtain chunks predictions series_ids stps
    where run: "preprocess_data example_parser Resume True 2 example_df = Inr chunks"
      and loop: "batch_loop example_model (map (\<lambda>c. [c]) chunks) ([], [], []) =
                   Inr (predictions, series_ids, stps)"
      and per: "\<forall>sid.
          length (filter (\<lambda>c. series_id c = sid) chunks) =
            length (filter (\<lambda>r. df_series_id r = sid) example_df) div nat 2 \<and>
          series_part sid series_ids predictions =
            concat (map (decode example_net) (filter (\<lambda>c. series_id c = sid) chunks)) \<and>
          length (series_part sid series_ids predictions) =
            length (filter (\<lambda>r. df_series_id r = sid) example_df) div nat 2 * nat 2 \<and>
          series_part sid series_ids stps =
            concat (map step (filter (\<lambda>c. series_id c = sid) chunks)) \<and>
          series_part sid series_ids stps =
            take (length (filter (\<lambda>r. df_series_id r = sid) example_df) div nat 2 * nat 2)
                 (map df_step (filter (\<lambda>r. df_series_id r = sid) example_df)) \<and>
          (sorted_wrt (<) (map df_step (filter (\<lambda>r. df_series_id r = sid) example_df)) \<longrightarrow>
             sorted_wrt (<) (series_part sid series_ids stps))"
    by blast
  have "length (filter (\<lambda>c. series_id c = ''a'') chunks) =
          length (filter (\<lambda>r. df_series_id r = ''a'') example_df) div nat 2"
    using per by blast
  then have n: "length (filter (\<lambda>c. series_id c = ''a'') chunks) = 2"
    by (simp add: all_a len)
  have "length (series_part ''a'' series_ids predictions) =
          length (filter (\<lambda>r. df_series_id r = ''a'') example_df) div nat 2 * nat 2"
    using per by blast
  then have lp: "length (series_part ''a'' series_ids predictions) = 2 * 2"
    by (simp add: all_a len)
  have "series_part ''a'' series_ids stps =
          take (length (filter (\<lambda>r. df_series_id r = ''a'') example_df) div nat 2 * nat 2)
               (map df_step (filter (\<lambda>r. df_series_id r = ''a'') example_df))"
    using per by blast
  then have st: "series_part ''a'' series_ids stps = [0, 1, 2, 3]"
    by (simp add: all_a len stp)
  have srt: "sorted_wrt (<) (series_part ''a'' series_ids stps)"
    by (simp add: st)
  show ?thesis
    using first run loop n lp st srt by blast
qed

text \<open>
  Claim C7, as the spec states it, fails. The five-sample series is windowed into
  \<open>n = 2\<close> windows of length \<open>W = 2\<close>; a loader that delivers both in one batch gets two
  labels and the steps 0 and 1 back, not \<open>n * W = 4\<close> entries: the second window is gone.
  And a loader that delivers the two windows one per batch, the second first, gets the
  steps back in that order, which is not ascending.
\<close>

theorem reassembly_drops_windows:
  "preprocess_data example_parser Resume True 2 example_df = Inr example_windows \<and>
   length example_windows = 2 \<and>
   batch_loop example_model [example_windows] ([], [], []) = Inr ([1, 0], [''a'', ''a''], [0, 1]) \<and>
   length [0, 1 :: int] \<noteq> 2 * 2 \<and>
   batch_loop example_model [[example_windows ! 1], [example_windows ! 0]] ([], [], []) =
     Inr ([1, 0, 1, 0], [''a'', ''a'', ''a'', ''a''], [2, 3, 0, 1]) \<and>
   \<not> sorted_wrt (<) [2, 3, 0, 1 :: int]"
  by (simp add: preprocess_data_def preprocess_series_def example_df_def row_def
      example_parser_def py_range_def slice_def Let_def example_windows_def example_model_def
      example_net_def torch_max_indices_def argmax_row_def)

subsection \<open>The transition scan\<close>

text \<open>Every row carries the value of \<open>curr_series\<close>, which is \<open>None\<close> throughout.\<close>

lemma scan_series_ids:
  "\<forall>r\<in>set rows. row_series_id r = cs \<Longrightarrow>
   \<forall>r\<in>set (scan_series cs st ps rows). row_series_id r = cs"
proof (induction ps arbitrary: st rows)
  case Nil
  then show ?case by simp
next
  case (Cons a ps)
  obtain pred stp where a: "a = (pred, stp)" by (cases a)
  show ?case
  proof (cases "pred = st")
    case True
    with Cons a show ?thesis by simp
  next
    case False
    let ?rows = "rows @ [\<lparr>row_id = length rows, row_series_id = cs, row_step = stp,
             event = (if pred = 1 then ''wakeup'' else ''onset''), score = 1\<rparr>]"
    have "\<forall>r\<in>set ?rows. row_series_id r = cs"
      using Cons.prems by simp
    then have "\<forall>r\<in>set (scan_series cs pred ps ?rows). row_series_id r = cs"
      by (rule Cons.IH)
    with False a show ?thesis by simp
  qed
qed


lemma scan_dict_ids:
  "\<forall>r\<in>set rows. row_series_id r = cs \<Longrightarrow> scan_dict cs pd rows = Inr rows' \<Longrightarrow>
   \<forall>r\<in>set rows'. row_series_id r = cs"
proof (induction pd arbitrary: rows)
  case Nil
  then show ?case by simp
next
  case (Cons e rest)
  obtain sid sd where e: "e = (sid, sd)" by (cases e)
  show ?case
  proof (cases "preds sd")
    case Nil
    with Cons.prems e show ?thesis by simp
  next
    case (Cons curr_state tail)
    let ?rows = "scan_series cs curr_state (zip (tl (preds sd)) (tl (steps sd))) rows"
    have ids: "\<forall>r\<in>set ?rows. row_series_id r = cs"
      using Cons.prems(1) by (rule scan_series_ids)
    have run: "scan_dict cs rest ?rows = Inr rows'"
      using Cons.prems(2) e Cons by simp
    from ids run show ?thesis by (rule Cons.IH)
  qed
qed

lemma transition_scan_no_series_id:
  assumes "transition_scan pd = Inr rows"
  shows "\<forall>r\<in>set rows. row_series_id r = None"
proof -
  have "\<forall>r\<in>set ([] :: prediction_row list). row_series_id r = None" by simp
  moreover have "scan_dict None pd [] = Inr rows"
    using assms by (simp add: transition_scan_def)
  ultimately show ?thesis by (rule scan_dict_ids)
qed

text \<open>
  Claim C1. The scan finds the two transitions of the spec's example at the steps and
  with the kinds the claim names, and scores them 1. It does not give the rows the
  identifier \<^verbatim>\<open>s1\<close>: \<^verbatim>\<open>'series_id': curr_series\<close> reads a variable that is \<^verbatim>\<open>None\<close> from line
  190 on, so both rows carry \<open>None\<close>.
\<close>

theorem transition_scan_example:
  "transition_scan [(''s1'', \<lparr>preds = [0, 0, 1, 1, 0], steps = [10, 20, 30, 40, 50]\<rparr>)] =
     Inr [\<lparr>row_id = 0, row_series_id = None, row_step = 30, event = ''wakeup'', score = 1\<rparr>,
          \<lparr>row_id = 1, row_series_id = None, row_step = 50, event = ''onset'', score = 1\<rparr>]"
  by (simp add: transition_scan_def)

text \<open>
  Claim C4. A series of one sample yields no row. A series of no sample does not yield
  zero events: line 192 reads \<^verbatim>\<open>series_dict["preds"][0]\<close> and raises.
\<close>

theorem transition_scan_empty_series:
  "transition_scan [(''s1'', \<lparr>preds = [], steps = []\<rparr>)] = Inl IndexError"
  by (simp add: transition_scan_def)

lemma transition_scan_single_sample:
  "transition_scan [(sid, \<lparr>preds = [x], steps = [s]\<rparr>)] = Inr []"
  by (simp add: transition_scan_def)

subsection \<open>Decoding along the wrong axis\<close>

text \<open>
  For a batch of one window, the first axis of the scores has one entry, so every chain
  \<^verbatim>\<open>decode\<close> sees has length one: each step is labelled by its own emission, start and
  end scores, and the transition scores are never read.
\<close>

lemma transpose_single: "transpose [xs] = map (\<lambda>x. [x]) xs"
  by (induction xs) simp_all

lemma viterbi_single:
  "viterbi crf [e] = [first_max (map2 (+) (map2 (+) (start_transitions crf) e) (end_transitions crf))]"
  by (simp add: viterbi_def)

lemma forward_decodes_each_step_alone:
  assumes "layers x = [es]"
    and "list_all (\<lambda>scores. length scores = length (start_transitions crf)) es"
  shows "forward layers crf_llh crf x None =
           Inr (Decoded (map (\<lambda>e. [first_max (map2 (+) (map2 (+) (start_transitions crf) e)
                                               (end_transitions crf))]) es))"
  using assms by (simp add: forward_def crf_decode_def transpose_single viterbi_single o_def)

text \<open>
  Claim C5. Without tags the claim expects the maximum-score label sequence of the
  window, one label per step. For the window of two steps with emission scores
  \<open>[5, 0]\<close> and \<open>[0, 1]\<close> that sequence is \<open>[0, 0]\<close>, of score 5 against \<open>- 4\<close>, \<open>- 10\<close> and
  1 for the other three, and \<^verbatim>\<open>decode\<close> finds it when the steps are on its first axis.
  \<^verbatim>\<open>forward\<close> returns two sequences of one label, \<open>[0]\<close> and \<open>[1]\<close>.
\<close>

theorem forward_decodes_across_windows:
  "forward example_layers (\<lambda>_ _ _. 0 :: int) example_crf [crf_window] None
     = Inr (Decoded [[0], [1]]) \<and>
   crf_decode example_crf (transpose (example_layers [crf_window])) = Inr [[0, 0]] \<and>
   map (path_score example_crf (hd (example_layers [crf_window]))) [[0, 0], [0, 1], [1, 0], [1, 1]]
     = [5, - 4, - 10, 1]"
  by (simp add: forward_def crf_decode_def viterbi_def viterbi_step_def first_max_def max_list_def
      path_score_def example_crf_def example_layers_def crf_window_def)

end
